theory Spec2Isabelle
  imports Main "HOL-Library.Sublist" "HOL-Library.Multiset"
begin

section \<open>Data model (main.go, lines 17-45)\<close>

record Subscriber =
  ID :: int
  Email :: string
  Name :: string
  SubscribedAt :: string

record Article =
  ID :: int
  Title :: string
  Content :: string
  PublishedAt :: string

record SentEmail =
  ID :: int
  SubscriberID :: int
  ArticleID :: int
  SentAt :: string

record AllData =
  Subscribers :: "Subscriber list"
  SubscriberCount :: int
  Articles :: "Article list"
  ArticleCount :: int
  SentEmails :: "SentEmail list"
  SentEmailCount :: int

section \<open>The store\<close>

text \<open>
  The three tables of \<^verbatim>\<open>createTables\<close>. Each table is the list of its rows in the
  order in which they were inserted, together with the AUTOINCREMENT counter that SQLite
  keeps for it. Go's \<^verbatim>\<open>int\<close> and SQLite's rowid are modelled as unbounded integers.
\<close>

record DB =
  subscribers :: "Subscriber list"
  subscribers_seq :: int
  articles :: "Article list"
  articles_seq :: int
  sent_emails :: "SentEmail list"
  sent_emails_seq :: int

text \<open>The SQL statements that the program issues, with their bound parameters.\<close>

datatype stmt =
    InsertSubscriber string string
  | InsertArticle string string
  | SelectArticle int
  | SelectSubscribers
  | CountSent int int
  | InsertSent int int
  | SelectAllSubscribers
  | SelectAllArticles
  | SelectAllSentEmails

text \<open>The four places where \<^verbatim>\<open>sendEmail\<close> can fail, each with the error's text.\<close>

datatype mail_error =
    ReadFile string
  | ParseTemplate string
  | ExecuteTemplate string
  | DialAndSend string

text \<open>
  What the program does not control: the clock behind \<^verbatim>\<open>CURRENT_TIMESTAMP\<close>, a
  failure of the database driver on a statement for a reason that is not in the data
  (I/O error, locked file), and the outcome of rendering and sending one mail.
\<close>

record world =
  now :: string
  db_fault :: "stmt \<Rightarrow> string option"
  mail_fault :: "Subscriber \<Rightarrow> Article \<Rightarrow> mail_error option"

text \<open>What a run leaves behind: log lines, statements sent to the store, calls of sendEmail.\<close>

datatype event =
    Log string
  | Sql stmt
  | Mail Subscriber Article

text \<open>
  \<^verbatim>\<open>INTEGER PRIMARY KEY AUTOINCREMENT\<close>: the new rowid is one more than the largest rowid
  the table has ever held.
\<close>

definition next_rowid :: "int \<Rightarrow> int list \<Rightarrow> int" where
  "next_rowid seq ids = fold max ids seq + 1"

text \<open>The empty tables that \<^verbatim>\<open>createTables\<close> makes in a new database file.\<close>

definition createTables :: DB where
  "createTables =
     \<lparr>subscribers = [], subscribers_seq = 0, articles = [], articles_seq = 0,
      sent_emails = [], sent_emails_seq = 0\<rparr>"

text \<open>
  \<^verbatim>\<open>INSERT INTO subscribers (email, name) VALUES (?, ?)\<close>, with \<^verbatim>\<open>email TEXT NOT NULL UNIQUE\<close>.
\<close>

definition insert_subscriber :: "world \<Rightarrow> DB \<Rightarrow> string \<Rightarrow> string \<Rightarrow> string + DB" where
  "insert_subscriber w d email name =
     (case db_fault w (InsertSubscriber email name) of
        Some e \<Rightarrow> Inl e
      | None \<Rightarrow>
          if email \<in> set (map Email (subscribers d))
          then Inl ''UNIQUE constraint failed: subscribers.email''
          else
            let i = next_rowid (subscribers_seq d) (map Subscriber.ID (subscribers d))
            in Inr (d\<lparr>subscribers := subscribers d @
                        [\<lparr>Subscriber.ID = i, Email = email, Name = name, SubscribedAt = now w\<rparr>],
                      subscribers_seq := i\<rparr>))"

text \<open>
  \<^verbatim>\<open>INSERT INTO articles (title, content) VALUES (?, ?)\<close>; the second component is
  \<^verbatim>\<open>result.LastInsertId()\<close>.
\<close>

definition insert_article :: "world \<Rightarrow> DB \<Rightarrow> string \<Rightarrow> string \<Rightarrow> string + (DB \<times> int)" where
  "insert_article w d title content =
     (case db_fault w (InsertArticle title content) of
        Some e \<Rightarrow> Inl e
      | None \<Rightarrow>
          let i = next_rowid (articles_seq d) (map Article.ID (articles d))
          in Inr (d\<lparr>articles := articles d @
                      [\<lparr>Article.ID = i, Title = title, Content = content, PublishedAt = now w\<rparr>],
                    articles_seq := i\<rparr>, i))"

text \<open>
  \<^verbatim>\<open>INSERT INTO sent_emails (subscriber_id, article_id) VALUES (?, ?)\<close>. The table has no
  uniqueness constraint on the pair, and the connection string does not switch foreign-key
  enforcement on, so the insert fails only when the driver does.
\<close>

definition insert_sent_email :: "world \<Rightarrow> DB \<Rightarrow> int \<Rightarrow> int \<Rightarrow> string + DB" where
  "insert_sent_email w d subscriberID articleID =
     (case db_fault w (InsertSent subscriberID articleID) of
        Some e \<Rightarrow> Inl e
      | None \<Rightarrow>
          let i = next_rowid (sent_emails_seq d) (map SentEmail.ID (sent_emails d))
          in Inr (d\<lparr>sent_emails := sent_emails d @
                      [\<lparr>SentEmail.ID = i, SubscriberID = subscriberID, ArticleID = articleID,
                        SentAt = now w\<rparr>],
                    sent_emails_seq := i\<rparr>))"

text \<open>
  \<^verbatim>\<open>SELECT COUNT(*) FROM sent_emails WHERE subscriber_id = ? AND article_id = ?\<close>.
\<close>

definition count_sent :: "DB \<Rightarrow> int \<Rightarrow> int \<Rightarrow> nat" where
  "count_sent d subscriberID articleID =
     length (filter (\<lambda>r. SubscriberID r = subscriberID \<and> ArticleID r = articleID)
               (sent_emails d))"

section \<open>Dispatch (main.go, lines 204-309)\<close>

text \<open>
  None of the SELECT statements has an ORDER BY: SQLite answers them by walking the table
  in ascending rowid, which is \<open>sort_key\<close> on the id column here.
\<close>

definition getArticle :: "world \<Rightarrow> DB \<Rightarrow> int \<Rightarrow> string + Article" where
  "getArticle w d i =
     (case db_fault w (SelectArticle i) of
        Some e \<Rightarrow> Inl e
      | None \<Rightarrow>
          (case find (\<lambda>a. Article.ID a = i) (sort_key Article.ID (articles d)) of
             None \<Rightarrow> Inl ''sql: no rows in result set''
           | Some a \<Rightarrow> Inr a))"

text \<open>
  \<^verbatim>\<open>rows.Scan(&s.ID, &s.Email, &s.Name)\<close>: the query reads three columns, so
  \<^verbatim>\<open>SubscribedAt\<close> keeps Go's zero value.
\<close>

definition scan_id_email_name :: "Subscriber \<Rightarrow> Subscriber" where
  "scan_id_email_name r =
     \<lparr>Subscriber.ID = Subscriber.ID r, Email = Email r, Name = Name r, SubscribedAt = ''''\<rparr>"

definition getSubscribers :: "world \<Rightarrow> DB \<Rightarrow> string + Subscriber list" where
  "getSubscribers w d =
     (case db_fault w SelectSubscribers of
        Some e \<Rightarrow> Inl e
      | None \<Rightarrow> Inr (map scan_id_email_name (sort_key Subscriber.ID (subscribers d))))"

definition hasReceivedArticle :: "world \<Rightarrow> DB \<Rightarrow> int \<Rightarrow> int \<Rightarrow> bool \<times> event list" where
  "hasReceivedArticle w d subscriberID articleID =
     (case db_fault w (CountSent subscriberID articleID) of
        Some e \<Rightarrow>
          (False, [Sql (CountSent subscriberID articleID),
                   Log (''Error checking sent email: '' @ e)])
      | None \<Rightarrow>
          (0 < count_sent d subscriberID articleID, [Sql (CountSent subscriberID articleID)]))"

definition markEmailSent :: "world \<Rightarrow> DB \<Rightarrow> int \<Rightarrow> int \<Rightarrow> DB \<times> event list" where
  "markEmailSent w d subscriberID articleID =
     (case insert_sent_email w d subscriberID articleID of
        Inl e \<Rightarrow>
          (d, [Sql (InsertSent subscriberID articleID),
               Log (''Error marking email as sent: '' @ e)])
      | Inr d' \<Rightarrow> (d', [Sql (InsertSent subscriberID articleID)]))"

definition sendEmail :: "world \<Rightarrow> Subscriber \<Rightarrow> Article \<Rightarrow> bool \<times> event list" where
  "sendEmail w sub article =
     (case mail_fault w sub article of
        Some (ReadFile e) \<Rightarrow>
          (False, [Mail sub article, Log (''Error reading email template file: '' @ e)])
      | Some (ParseTemplate e) \<Rightarrow>
          (False, [Mail sub article, Log (''Error parsing email template: '' @ e)])
      | Some (ExecuteTemplate e) \<Rightarrow>
          (False, [Mail sub article, Log (''Error executing template: '' @ e)])
      | Some (DialAndSend e) \<Rightarrow>
          (False, [Mail sub article,
                   Log (''Error sending email to '' @ Email sub @ '': '' @ e)])
      | None \<Rightarrow> (True, [Mail sub article]))"

text \<open>The body of the loop of \<^verbatim>\<open>sendNewsletterForArticle\<close>, for one subscriber.\<close>

definition send_one :: "world \<Rightarrow> int \<Rightarrow> Article \<Rightarrow> Subscriber \<Rightarrow> DB \<Rightarrow> DB \<times> event list" where
  "send_one w articleID article sub d =
     (case hasReceivedArticle w d (Subscriber.ID sub) articleID of
        (received, ev1) \<Rightarrow>
          if \<not> received then
            (case sendEmail w sub article of
               (ok, ev2) \<Rightarrow>
                 if ok then
                   (case markEmailSent w d (Subscriber.ID sub) articleID of
                      (d', ev3) \<Rightarrow> (d', ev1 @ ev2 @ ev3))
                 else (d, ev1 @ ev2))
          else (d, ev1))"

fun send_loop :: "world \<Rightarrow> int \<Rightarrow> Article \<Rightarrow> Subscriber list \<Rightarrow> DB \<Rightarrow> DB \<times> event list" where
  "send_loop w articleID article [] d = (d, [])"
| "send_loop w articleID article (sub # rest) d =
     (case send_one w articleID article sub d of
        (d1, ev1) \<Rightarrow>
          (case send_loop w articleID article rest d1 of
             (d2, ev2) \<Rightarrow> (d2, ev1 @ ev2)))"

definition sendNewsletterForArticle :: "world \<Rightarrow> DB \<Rightarrow> int \<Rightarrow> DB \<times> event list" where
  "sendNewsletterForArticle w d articleID =
     (case getArticle w d articleID of
        Inl e \<Rightarrow>
          (d, [Log ''sending blog post'', Sql (SelectArticle articleID),
               Log (''Error getting article: '' @ e)])
      | Inr article \<Rightarrow>
          (case getSubscribers w d of
             Inl e \<Rightarrow>
               (d, [Log ''sending blog post'', Sql (SelectArticle articleID),
                    Sql SelectSubscribers, Log (''Error getting subscribers: '' @ e)])
           | Inr subs \<Rightarrow>
               (case send_loop w articleID article subs d of
                  (d', evs) \<Rightarrow>
                    (d', [Log ''sending blog post'', Sql (SelectArticle articleID),
                          Sql SelectSubscribers] @ evs))))"

text \<open>Reading a run: the subscribers mailed, and the statements issued, in order.\<close>

fun mails :: "event list \<Rightarrow> Subscriber list" where
  "mails [] = []"
| "mails (Mail s a # es) = s # mails es"
| "mails (Log m # es) = mails es"
| "mails (Sql q # es) = mails es"

fun sqls :: "event list \<Rightarrow> stmt list" where
  "sqls [] = []"
| "sqls (Sql q # es) = q # sqls es"
| "sqls (Log m # es) = sqls es"
| "sqls (Mail s a # es) = sqls es"

fun checks :: "stmt list \<Rightarrow> int list" where
  "checks [] = []"
| "checks (CountSent s a # qs) = s # checks qs"
| "checks (q # qs) = checks qs"

fun inserts :: "stmt list \<Rightarrow> int list" where
  "inserts [] = []"
| "inserts (InsertSent s a # qs) = s # inserts qs"
| "inserts (q # qs) = inserts qs"

section \<open>HTTP layer (main.go, lines 126-202 and 311-403)\<close>

record request =
  Method :: string
  Body :: string

record response =
  status :: nat
  body :: string

text \<open>
  \<^verbatim>\<open>encoding/json\<close> is a library: the handlers take its decoders and its encoder as
  parameters. A decoder returns the error's text or the decoded value.
\<close>

record json =
  decode_Subscriber :: "string \<Rightarrow> string + Subscriber"
  decode_Article :: "string \<Rightarrow> string + Article"
  decode_ArticleID :: "string \<Rightarrow> string + int"
  encode_AllData :: "AllData \<Rightarrow> string + string"

text \<open>\<^verbatim>\<open>http.Error\<close> writes the status and the message followed by a newline.\<close>

definition http_Error :: "string \<Rightarrow> nat \<Rightarrow> response" where
  "http_Error msg code = \<lparr>status = code, body = msg @ [CHR 0x0A]\<rparr>"

text \<open>
  A handler returns the store, the response and the article ids for which it started
  \<^verbatim>\<open>go sendNewsletterForArticle\<close>.
\<close>

definition handleSubscribe :: "json \<Rightarrow> world \<Rightarrow> DB \<Rightarrow> request \<Rightarrow> DB \<times> response \<times> int list" where
  "handleSubscribe j w d r =
     (if Method r \<noteq> ''POST'' then (d, http_Error ''Method not allowed'' 405, [])
      else
        (case decode_Subscriber j (Body r) of
           Inl e \<Rightarrow> (d, http_Error e 400, [])
         | Inr sub \<Rightarrow>
             (case insert_subscriber w d (Email sub) (Name sub) of
                Inl e \<Rightarrow> (d, http_Error ''Error subscribing'' 500, [])
              | Inr d' \<Rightarrow> (d', \<lparr>status = 200, body = ''Subscribed successfully''\<rparr>, []))))"

definition handlePublish :: "json \<Rightarrow> world \<Rightarrow> DB \<Rightarrow> request \<Rightarrow> DB \<times> response \<times> int list" where
  "handlePublish j w d r =
     (if Method r \<noteq> ''POST'' then (d, http_Error ''Method not allowed'' 405, [])
      else
        (case decode_Article j (Body r) of
           Inl e \<Rightarrow> (d, http_Error e 400, [])
         | Inr article \<Rightarrow>
             (case insert_article w d (Title article) (Content article) of
                Inl e \<Rightarrow> (d, http_Error ''Error publishing article'' 500, [])
              | Inr (d', articleID) \<Rightarrow>
                  (d', \<lparr>status = 200, body = ''Article published successfully''\<rparr>,
                   [articleID]))))"

definition handleSendNewsletter ::
  "json \<Rightarrow> world \<Rightarrow> DB \<Rightarrow> request \<Rightarrow> DB \<times> response \<times> int list" where
  "handleSendNewsletter j w d r =
     (if Method r \<noteq> ''POST'' then (d, http_Error ''Method not allowed'' 405, [])
      else
        (case decode_ArticleID j (Body r) of
           Inl e \<Rightarrow> (d, http_Error e 400, [])
         | Inr articleID \<Rightarrow>
             (d, \<lparr>status = 200, body = ''Newsletter sending triggered''\<rparr>, [articleID])))"

definition getAllSubscribers :: "world \<Rightarrow> DB \<Rightarrow> string + Subscriber list" where
  "getAllSubscribers w d =
     (case db_fault w SelectAllSubscribers of
        Some e \<Rightarrow> Inl e
      | None \<Rightarrow> Inr (sort_key Subscriber.ID (subscribers d)))"

definition getAllArticles :: "world \<Rightarrow> DB \<Rightarrow> string + Article list" where
  "getAllArticles w d =
     (case db_fault w SelectAllArticles of
        Some e \<Rightarrow> Inl e
      | None \<Rightarrow> Inr (sort_key Article.ID (articles d)))"

definition getAllSentEmails :: "world \<Rightarrow> DB \<Rightarrow> string + SentEmail list" where
  "getAllSentEmails w d =
     (case db_fault w SelectAllSentEmails of
        Some e \<Rightarrow> Inl e
      | None \<Rightarrow> Inr (sort_key SentEmail.ID (sent_emails d)))"

definition getAllData :: "world \<Rightarrow> DB \<Rightarrow> string + AllData" where
  "getAllData w d =
     (case getAllSubscribers w d of
        Inl e \<Rightarrow> Inl e
      | Inr subs \<Rightarrow>
          (case getAllArticles w d of
             Inl e \<Rightarrow> Inl e
           | Inr arts \<Rightarrow>
               (case getAllSentEmails w d of
                  Inl e \<Rightarrow> Inl e
                | Inr sentEmails \<Rightarrow>
                    Inr \<lparr>Subscribers = subs, SubscriberCount = int (length subs),
                         Articles = arts, ArticleCount = int (length arts),
                         SentEmails = sentEmails,
                         SentEmailCount = int (length sentEmails)\<rparr>)))"

definition handleGetAllData :: "json \<Rightarrow> world \<Rightarrow> DB \<Rightarrow> request \<Rightarrow> DB \<times> response \<times> int list" where
  "handleGetAllData j w d r =
     (case getAllData w d of
        Inl e \<Rightarrow> (d, http_Error e 500, [])
      | Inr data \<Rightarrow>
          (case encode_AllData j data of
             Inl e \<Rightarrow> (d, http_Error e 500, [])
           | Inr text \<Rightarrow> (d, \<lparr>status = 200, body = text\<rparr>, [])))"

section \<open>The JSON decoder\<close>

text \<open>
  \<^verbatim>\<open>json.NewDecoder(r.Body).Decode(&v)\<close> reads the next JSON value from the body and
  hands that value alone to the unmarshaller; it does not look at what follows a top-level
  object or array. The scanner below recognises one value of the JSON grammar and returns
  the input left after it.
\<close>

definition is_space :: "char \<Rightarrow> bool" where
  "is_space c = (c = CHR '' '' \<or> c = CHR 0x09 \<or> c = CHR 0x0A \<or> c = CHR 0x0D)"

definition skip_space :: "string \<Rightarrow> string" where
  "skip_space s = dropWhile is_space s"

definition is_digit :: "char \<Rightarrow> bool" where
  "is_digit c = (c \<in> set ''0123456789'')"

definition is_hex :: "char \<Rightarrow> bool" where
  "is_hex c = (c \<in> set ''0123456789abcdefABCDEF'')"

text \<open>After the opening quote: up to and including the closing quote.\<close>

fun scan_string :: "string \<Rightarrow> string option" where
  "scan_string [] = None"
| "scan_string (c # cs) =
     (if c = CHR 0x22 then Some cs
      else if c = CHR 0x5C then
        (case cs of
           [] \<Rightarrow> None
         | e # es \<Rightarrow>
             if e \<in> set [CHR 0x22, CHR 0x5C, CHR ''/'', CHR ''b'', CHR ''f'', CHR ''n'',
                          CHR ''r'', CHR ''t'']
             then scan_string es
             else if e = CHR ''u'' \<and> 4 \<le> length es \<and> list_all is_hex (take 4 es)
             then scan_string (drop 4 es)
             else None)
      else if (of_char c :: nat) < 32 then None
      else scan_string cs)"

definition scan_exponent :: "string \<Rightarrow> string option" where
  "scan_exponent s =
     (case s of
        [] \<Rightarrow> Some s
      | e # r \<Rightarrow>
          if e = CHR ''e'' \<or> e = CHR ''E'' then
            (case (case r of
                     [] \<Rightarrow> r
                   | g # r' \<Rightarrow> if g = CHR ''+'' \<or> g = CHR ''-'' then r' else r) of
               [] \<Rightarrow> None
             | x # xs \<Rightarrow> if is_digit x then Some (dropWhile is_digit xs) else None)
          else Some s)"

definition scan_fraction :: "string \<Rightarrow> string option" where
  "scan_fraction s =
     (case s of
        [] \<Rightarrow> Some s
      | p # r \<Rightarrow>
          if p = CHR ''.'' then
            (case r of
               [] \<Rightarrow> None
             | x # xs \<Rightarrow> if is_digit x then scan_exponent (dropWhile is_digit xs) else None)
          else scan_exponent s)"

definition scan_number :: "string \<Rightarrow> string option" where
  "scan_number s =
     (case (case s of [] \<Rightarrow> s | m # r \<Rightarrow> if m = CHR ''-'' then r else s) of
        [] \<Rightarrow> None
      | x # xs \<Rightarrow>
          if x = CHR ''0'' then scan_fraction xs
          else if is_digit x then scan_fraction (dropWhile is_digit xs)
          else None)"

definition scan_literal :: "string \<Rightarrow> string option" where
  "scan_literal s =
     (if take 4 s = ''true'' then Some (drop 4 s)
      else if take 5 s = ''false'' then Some (drop 5 s)
      else if take 4 s = ''null'' then Some (drop 4 s)
      else None)"

text \<open>
  One value, the elements of an array after the first bracket, the members of an object
  after the first brace. The first argument bounds the number of nested calls; twice the
  length of the input plus two is enough, since two calls in a row consume a character.
\<close>

fun scan_value :: "nat \<Rightarrow> string \<Rightarrow> string option"
  and scan_elements :: "nat \<Rightarrow> string \<Rightarrow> string option"
  and scan_members :: "nat \<Rightarrow> string \<Rightarrow> string option" where
  "scan_value 0 s = None"
| "scan_value (Suc n) s =
     (case s of
        [] \<Rightarrow> None
      | c # cs \<Rightarrow>
          if c = CHR ''{'' then
            (case skip_space cs of
               [] \<Rightarrow> None
             | x # xs \<Rightarrow> if x = CHR ''}'' then Some xs else scan_members n (x # xs))
          else if c = CHR ''['' then
            (case skip_space cs of
               [] \<Rightarrow> None
             | x # xs \<Rightarrow> if x = CHR '']'' then Some xs else scan_elements n (x # xs))
          else if c = CHR 0x22 then scan_string cs
          else if c = CHR ''-'' \<or> is_digit c then scan_number s
          else scan_literal s)"
| "scan_elements 0 s = None"
| "scan_elements (Suc n) s =
     (case scan_value n s of
        None \<Rightarrow> None
      | Some r \<Rightarrow>
          (case skip_space r of
             [] \<Rightarrow> None
           | x # xs \<Rightarrow>
               if x = CHR '','' then scan_elements n (skip_space xs)
               else if x = CHR '']'' then Some xs
               else None))"
| "scan_members 0 s = None"
| "scan_members (Suc n) s =
     (case s of
        [] \<Rightarrow> None
      | q # cs \<Rightarrow>
          if q \<noteq> CHR 0x22 then None
          else
            (case scan_string cs of
               None \<Rightarrow> None
             | Some r \<Rightarrow>
                 (case skip_space r of
                    [] \<Rightarrow> None
                  | x # xs \<Rightarrow>
                      if x \<noteq> CHR '':'' then None
                      else
                        (case scan_value n (skip_space xs) of
                           None \<Rightarrow> None
                         | Some r2 \<Rightarrow>
                             (case skip_space r2 of
                                [] \<Rightarrow> None
                              | y # ys \<Rightarrow>
                                  if y = CHR '','' then scan_members n (skip_space ys)
                                  else if y = CHR ''}'' then Some ys
                                  else None)))))"

text \<open>
  The decoder's \<^verbatim>\<open>readValue\<close>: leading white space is skipped; an object or an array
  ends at its closing bracket whatever comes next, any other value must be followed by
  white space or by the end of the input. The result is the text of the value and the
  input left unread.
\<close>

definition read_value :: "string \<Rightarrow> (string \<times> string) option" where
  "read_value b =
     (case skip_space b of
        [] \<Rightarrow> None
      | c # cs \<Rightarrow>
          (case scan_value (2 * length (c # cs) + 2) (c # cs) of
             None \<Rightarrow> None
           | Some rest \<Rightarrow>
               if c = CHR ''{'' \<or> c = CHR ''['' \<or> rest = [] \<or> is_space (hd rest)
               then Some (take (length (c # cs) - length rest) (c # cs), rest)
               else None))"

text \<open>A JSON text is one value between white space.\<close>

definition valid_json :: "string \<Rightarrow> bool" where
  "valid_json b =
     (case read_value b of
        None \<Rightarrow> False
      | Some (v, rest) \<Rightarrow> skip_space rest = [])"



section \<open>Histories of the store\<close>

text \<open>
  The store changes only through the handlers registered in \<^verbatim>\<open>main\<close> and through the
  dispatch runs they start. A history is a list of such actions, each with the world it
  met, applied to the tables that \<^verbatim>\<open>createTables\<close> made.
\<close>

datatype action =
    Subscribe request
  | Publish request
  | SendNewsletter request
  | Stats request
  | Dispatch int

fun step :: "json \<Rightarrow> DB \<Rightarrow> world \<times> action \<Rightarrow> DB" where
  "step j d (w, Subscribe r) = fst (handleSubscribe j w d r)"
| "step j d (w, Publish r) = fst (handlePublish j w d r)"
| "step j d (w, SendNewsletter r) = fst (handleSendNewsletter j w d r)"
| "step j d (w, Stats r) = fst (handleGetAllData j w d r)"
| "step j d (w, Dispatch articleID) = fst (sendNewsletterForArticle w d articleID)"

definition run :: "json \<Rightarrow> (world \<times> action) list \<Rightarrow> DB" where
  "run j acts = foldl (step j) createTables acts"

text \<open>
  The invariant behind the order of the queries: the ids of the subscribers grow along the
  order of insertion.
\<close>

definition ids_ascending :: "DB \<Rightarrow> bool" where
  "ids_ascending d = sorted_wrt (<) (map Subscriber.ID (subscribers d))"

section \<open>Example inputs\<close>

text \<open>A decoder that knows the request bodies of the examples, and a world without faults.\<close>

definition json_ex :: json where
  \<open>json_ex =
     \<lparr>decode_Subscriber = (\<lambda>b.
        if b = ''{"email":"a@x.com","name":"Ann"}''
        then Inr \<lparr>Subscriber.ID = 0, Email = ''a@x.com'', Name = ''Ann'', SubscribedAt = ''''\<rparr>
        else Inl ''unexpected EOF''),
      decode_Article = (\<lambda>b.
        if b = ''{"title":"Hi","content":"Body"}''
        then Inr \<lparr>Article.ID = 0, Title = ''Hi'', Content = ''Body'', PublishedAt = ''''\<rparr>
        else Inl ''unexpected EOF''),
      decode_ArticleID = (\<lambda>b.
        if b = ''{"article_id":7}'' then Inr 7 else Inl ''unexpected EOF''),
      encode_AllData = (\<lambda>a. Inr ''{}'')\<rparr>\<close>

definition subscribe_ann :: request where
  \<open>subscribe_ann = \<lparr>Method = ''POST'', Body = ''{"email":"a@x.com","name":"Ann"}''\<rparr>\<close>

definition publish_hi :: request where
  \<open>publish_hi = \<lparr>Method = ''POST'', Body = ''{"title":"Hi","content":"Body"}''\<rparr>\<close>

definition send_7 :: request where
  \<open>send_7 = \<lparr>Method = ''POST'', Body = ''{"article_id":7}''\<rparr>\<close>




definition quiet :: world where
  "quiet = \<lparr>now = ''2024-01-01 00:00:00'', db_fault = (\<lambda>q. None), mail_fault = (\<lambda>s a. None)\<rparr>"

definition locked :: world where
  "locked = \<lparr>now = ''2024-01-01 00:00:00'', db_fault = (\<lambda>q. Some ''database is locked''),
     mail_fault = (\<lambda>s a. None)\<rparr>"

definition ann_row :: Subscriber where
  "ann_row = \<lparr>Subscriber.ID = 1, Email = ''a@x.com'', Name = ''Ann'',
     SubscribedAt = ''2024-01-01 00:00:00''\<rparr>"

definition bob_row :: Subscriber where
  "bob_row = \<lparr>Subscriber.ID = 2, Email = ''b@x.com'', Name = ''Bob'',
     SubscribedAt = ''2024-01-02 00:00:00''\<rparr>"

definition ann :: Subscriber where
  "ann = \<lparr>Subscriber.ID = 1, Email = ''a@x.com'', Name = ''Ann'', SubscribedAt = ''''\<rparr>"

definition bob :: Subscriber where
  "bob = \<lparr>Subscriber.ID = 2, Email = ''b@x.com'', Name = ''Bob'', SubscribedAt = ''''\<rparr>"

definition hi :: Article where
  "hi = \<lparr>Article.ID = 1, Title = ''Hi'', Content = ''Body'',
     PublishedAt = ''2024-01-01 00:00:00''\<rparr>"

definition ann_db :: DB where
  "ann_db = createTables\<lparr>subscribers := [ann_row], subscribers_seq := 1\<rparr>"

definition ann_hi_db :: DB where
  "ann_hi_db = ann_db\<lparr>articles := [hi], articles_seq := 1\<rparr>"

definition ann_bob_hi_db :: DB where
  "ann_bob_hi_db = ann_hi_db\<lparr>subscribers := [ann_row, bob_row], subscribers_seq := 2\<rparr>"

definition ann_hi_sent_db :: DB where
  "ann_hi_sent_db = ann_hi_db\<lparr>sent_emails :=
        [\<lparr>SentEmail.ID = 1, SubscriberID = 1, ArticleID = 1,
          SentAt = ''2024-01-01 00:00:00''\<rparr>], sent_emails_seq := 1\<rparr>"

definition ann_bounces :: world where
  "ann_bounces = quiet\<lparr>mail_fault := (\<lambda>s a.
      if Email s = ''a@x.com'' then Some (DialAndSend ''dial tcp: connection refused'')
      else None)\<rparr>"

definition count_fails :: world where
  "count_fails = quiet\<lparr>db_fault := (\<lambda>q.
      case q of CountSent s a \<Rightarrow> Some ''database is locked'' | _ \<Rightarrow> None)\<rparr>"

definition mark_fails :: world where
  "mark_fails = quiet\<lparr>db_fault := (\<lambda>q.
      case q of InsertSent s a \<Rightarrow> Some ''database is locked'' | _ \<Rightarrow> None)\<rparr>"

section \<open>Malformed requests\<close>



lemma valid_json_read_value: "valid_json b \<Longrightarrow> read_value b \<noteq> None"
  by (auto simp add: valid_json_def split: option.splits)




section \<open>Duplicate subscription\<close>

text \<open>
  C6. When the email of a POST to /api/subscribe is already in the subscribers table, the
  insert fails at the store (on the uniqueness of email unless the driver failed first),
  the handler answers 500 and the store, the subscribers table in it, is unchanged.
\<close>

theorem duplicate_email_rejected:
  assumes "Method r = ''POST''"
    and "decode_Subscriber j (Body r) = Inr sub"
    and "Email sub \<in> set (map Email (subscribers d))"
  shows "(\<exists>e. insert_subscriber w d (Email sub) (Name sub) = Inl e) \<and>
         (db_fault w (InsertSubscriber (Email sub) (Name sub)) = None \<longrightarrow>
            insert_subscriber w d (Email sub) (Name sub) =
              Inl ''UNIQUE constraint failed: subscribers.email'') \<and>
         handleSubscribe j w d r = (d, http_Error ''Error subscribing'' 500, [])"
  using assms by (auto simp add: handleSubscribe_def insert_subscriber_def split: option.splits)

lemma first_ann:
  "fst (handleSubscribe json_ex quiet createTables subscribe_ann) = ann_db"
  by (simp add: handleSubscribe_def subscribe_ann_def json_ex_def quiet_def createTables_def
      insert_subscriber_def next_rowid_def ann_db_def ann_row_def)

theorem duplicate_email_rejected_witness:
  "Method subscribe_ann = ''POST'' \<and>
   decode_Subscriber json_ex (Body subscribe_ann) =
     Inr \<lparr>Subscriber.ID = 0, Email = ''a@x.com'', Name = ''Ann'', SubscribedAt = ''''\<rparr> \<and>
   fst (handleSubscribe json_ex quiet createTables subscribe_ann) = ann_db \<and>
   ''a@x.com'' \<in> set (map Email (subscribers ann_db)) \<and>
   handleSubscribe json_ex quiet ann_db subscribe_ann =
     (ann_db, \<lparr>status = 500, body = ''Error subscribing'' @ [CHR 0x0A]\<rparr>, [])"
  using duplicate_email_rejected [of subscribe_ann json_ex
      "\<lparr>Subscriber.ID = 0, Email = ''a@x.com'', Name = ''Ann'', SubscribedAt = ''''\<rparr>"
      ann_db quiet] first_ann
  by (simp add: subscribe_ann_def json_ex_def http_Error_def ann_db_def ann_row_def createTables_def)

section \<open>Store failures in the subscribe and publish handlers\<close>

text \<open>
  C7, as stated, fails: when the insert of a repeated email fails with SQLite's
  uniqueness error, handleSubscribe answers 500, but the body is the fixed line
  "Error subscribing" and the store's error text is nowhere in it.
\<close>

theorem store_error_text_hidden:
  "insert_subscriber quiet ann_db ''a@x.com'' ''Ann'' =
     Inl ''UNIQUE constraint failed: subscribers.email'' \<and>
   handleSubscribe json_ex quiet ann_db subscribe_ann =
     (ann_db, \<lparr>status = 500, body = ''Error subscribing'' @ [CHR 0x0A]\<rparr>, []) \<and>
   \<not> sublist ''UNIQUE constraint failed: subscribers.email''
       (body (fst (snd (handleSubscribe json_ex quiet ann_db subscribe_ann))))"
proof -
  have a: "insert_subscriber quiet ann_db ''a@x.com'' ''Ann'' =
     Inl ''UNIQUE constraint failed: subscribers.email''"
    by (simp add: insert_subscriber_def quiet_def ann_db_def ann_row_def createTables_def)
  have b: "handleSubscribe json_ex quiet ann_db subscribe_ann =
     (ann_db, \<lparr>status = 500, body = ''Error subscribing'' @ [CHR 0x0A]\<rparr>, [])"
    by (simp add: handleSubscribe_def subscribe_ann_def json_ex_def a http_Error_def)
  have c: "\<not> sublist ''UNIQUE constraint failed: subscribers.email''
       (''Error subscribing'' @ [CHR 0x0A])"
    by code_simp
  show ?thesis using a b c by simp
qed

text \<open>
  C7, amended. When the insert fails in the subscribe or the publish handler, the handler
  answers 500 with a fixed line ("Error subscribing", "Error publishing article") whatever
  the store's error text is; the store is unchanged and no dispatch is started.
\<close>

theorem insert_failure_fixed_message:
  assumes "Method r = ''POST''"
  shows "(decode_Subscriber j (Body r) = Inr sub \<and>
          insert_subscriber w d (Email sub) (Name sub) = Inl e1 \<longrightarrow>
            handleSubscribe j w d r =
              (d, \<lparr>status = 500, body = ''Error subscribing'' @ [CHR 0x0A]\<rparr>, [])) \<and>
         (decode_Article j (Body r) = Inr article \<and>
          insert_article w d (Title article) (Content article) = Inl e2 \<longrightarrow>
            handlePublish j w d r =
              (d, \<lparr>status = 500, body = ''Error publishing article'' @ [CHR 0x0A]\<rparr>, []))"
  using assms by (simp add: handleSubscribe_def handlePublish_def http_Error_def)

theorem insert_failure_fixed_message_witness:
  "Method subscribe_ann = ''POST'' \<and> Method publish_hi = ''POST'' \<and>
   insert_subscriber locked createTables ''a@x.com'' ''Ann'' = Inl ''database is locked'' \<and>
   insert_article locked createTables ''Hi'' ''Body'' = Inl ''database is locked'' \<and>
   handleSubscribe json_ex locked createTables subscribe_ann =
     (createTables, \<lparr>status = 500, body = ''Error subscribing'' @ [CHR 0x0A]\<rparr>, []) \<and>
   handlePublish json_ex locked createTables publish_hi =
     (createTables, \<lparr>status = 500, body = ''Error publishing article'' @ [CHR 0x0A]\<rparr>, [])"
  using insert_failure_fixed_message [of subscribe_ann json_ex
      "\<lparr>Subscriber.ID = 0, Email = ''a@x.com'', Name = ''Ann'', SubscribedAt = ''''\<rparr>"
      locked createTables "''database is locked''"]
    insert_failure_fixed_message [of publish_hi json_ex _ locked createTables _
      "\<lparr>Article.ID = 0, Title = ''Hi'', Content = ''Body'', PublishedAt = ''''\<rparr>"
      "''database is locked''"]
  by (simp add: subscribe_ann_def publish_hi_def json_ex_def locked_def
      insert_subscriber_def insert_article_def)

section \<open>Dispatch of an article that does not exist\<close>

lemma getArticle_missing:
  assumes "articleID \<notin> set (map Article.ID (articles d))"
  shows "\<exists>e. getArticle w d articleID = Inl e"
proof (cases "db_fault w (SelectArticle articleID)")
  case None
  have "find (\<lambda>a. Article.ID a = articleID) (sort_key Article.ID (articles d)) = None"
    using assms by (auto simp add: find_None_iff)
  with None show ?thesis by (simp add: getArticle_def)
next
  case (Some e)
  then show ?thesis by (simp add: getArticle_def)
qed

text \<open>
  C3. For an article id that no row of the articles table carries, POST
  /api/send-newsletter still answers 200 and starts the dispatch; the dispatch issues the
  article lookup and nothing else (no subscriber query, no check, no insert), calls
  sendEmail for nobody and returns the store as it was.
\<close>

theorem missing_article_aborts:
  assumes "articleID \<notin> set (map Article.ID (articles d))"
    and "Method r = ''POST''"
    and "decode_ArticleID j (Body r) = Inr articleID"
  shows "handleSendNewsletter j w d r =
           (d, \<lparr>status = 200, body = ''Newsletter sending triggered''\<rparr>, [articleID]) \<and>
         fst (sendNewsletterForArticle w' d articleID) = d \<and>
         sqls (snd (sendNewsletterForArticle w' d articleID)) = [SelectArticle articleID] \<and>
         mails (snd (sendNewsletterForArticle w' d articleID)) = []"
proof -
  obtain e where "getArticle w' d articleID = Inl e"
    using getArticle_missing [OF assms(1)] by blast
  then have "sendNewsletterForArticle w' d articleID =
      (d, [Log ''sending blog post'', Sql (SelectArticle articleID),
           Log (''Error getting article: '' @ e)])"
    by (simp add: sendNewsletterForArticle_def)
  then show ?thesis using assms(2,3) by (simp add: handleSendNewsletter_def)
qed

theorem missing_article_aborts_witness:
  "7 \<notin> set (map Article.ID (articles ann_db)) \<and> Method send_7 = ''POST'' \<and>
   decode_ArticleID json_ex (Body send_7) = Inr 7 \<and>
   handleSendNewsletter json_ex quiet ann_db send_7 =
     (ann_db, \<lparr>status = 200, body = ''Newsletter sending triggered''\<rparr>, [7]) \<and>
   fst (sendNewsletterForArticle quiet ann_db 7) = ann_db \<and>
   sqls (snd (sendNewsletterForArticle quiet ann_db 7)) = [SelectArticle 7] \<and>
   mails (snd (sendNewsletterForArticle quiet ann_db 7)) = []"
  using missing_article_aborts [of 7 ann_db send_7 json_ex quiet quiet]
  by (simp add: ann_db_def ann_row_def createTables_def send_7_def json_ex_def)

section \<open>The stats aggregate\<close>

text \<open>
  C4. When the three reads succeed, getAllData returns an aggregate whose three counts are
  the numbers of rows of the three tables, whose three lists hold exactly the rows of the
  tables, and in which each count is the length of its list; GET /api/stats answers with
  the encoding of that aggregate.
\<close>

theorem stats_counts:
  assumes "db_fault w SelectAllSubscribers = None"
    and "db_fault w SelectAllArticles = None"
    and "db_fault w SelectAllSentEmails = None"
  shows "\<exists>data. getAllData w d = Inr data \<and>
           SubscriberCount data = int (length (subscribers d)) \<and>
           ArticleCount data = int (length (articles d)) \<and>
           SentEmailCount data = int (length (sent_emails d)) \<and>
           mset (Subscribers data) = mset (subscribers d) \<and>
           mset (Articles data) = mset (articles d) \<and>
           mset (SentEmails data) = mset (sent_emails d) \<and>
           SubscriberCount data = int (length (Subscribers data)) \<and>
           ArticleCount data = int (length (Articles data)) \<and>
           SentEmailCount data = int (length (SentEmails data)) \<and>
           handleGetAllData j w d r =
             (d, (case encode_AllData j data of
                    Inl e \<Rightarrow> http_Error e 500
                  | Inr text \<Rightarrow> \<lparr>status = 200, body = text\<rparr>), [])"
  using assms
  by (simp add: getAllData_def getAllSubscribers_def getAllArticles_def getAllSentEmails_def
      handleGetAllData_def split: sum.splits)

theorem stats_counts_witness:
  "db_fault quiet SelectAllSubscribers = None \<and> db_fault quiet SelectAllArticles = None \<and>
   db_fault quiet SelectAllSentEmails = None \<and>
   (\<exists>data. getAllData quiet ann_db = Inr data \<and> SubscriberCount data = 1 \<and>
      ArticleCount data = 0 \<and> SentEmailCount data = 0 \<and>
      handleGetAllData json_ex quiet ann_db \<lparr>Method = ''GET'', Body = ''''\<rparr> =
        (ann_db, \<lparr>status = 200, body = ''{}''\<rparr>, []))"
  using stats_counts [of quiet ann_db json_ex "\<lparr>Method = ''GET'', Body = ''''\<rparr>"]
  by (auto simp add: quiet_def ann_db_def ann_row_def createTables_def json_ex_def)

section \<open>The dispatch loop\<close>

lemma mails_append: "mails (xs @ ys) = mails xs @ mails ys"
  by (induction xs rule: mails.induct) simp_all

lemma sqls_append: "sqls (xs @ ys) = sqls xs @ sqls ys"
  by (induction xs rule: sqls.induct) simp_all

lemma checks_append: "checks (xs @ ys) = checks xs @ checks ys"
  by (induction xs rule: checks.induct) simp_all

lemma inserts_append: "inserts (xs @ ys) = inserts xs @ inserts ys"
  by (induction xs rule: inserts.induct) simp_all

text \<open>One turn of the loop, read off its three decisions.\<close>

lemma mails_sendEmail: "mails (snd (sendEmail w s a)) = [s]"
  by (simp add: sendEmail_def split: option.splits mail_error.splits)

lemma sqls_sendEmail: "sqls (snd (sendEmail w s a)) = []"
  by (simp add: sendEmail_def split: option.splits mail_error.splits)

lemma fst_sendEmail: "fst (sendEmail w s a) = (mail_fault w s a = None)"
  by (simp add: sendEmail_def split: option.splits mail_error.splits)

lemma mails_hasReceivedArticle: "mails (snd (hasReceivedArticle w d x y)) = []"
  by (simp add: hasReceivedArticle_def split: option.splits)

lemma sqls_hasReceivedArticle: "sqls (snd (hasReceivedArticle w d x y)) = [CountSent x y]"
  by (simp add: hasReceivedArticle_def split: option.splits)

lemma mails_markEmailSent: "mails (snd (markEmailSent w d x y)) = []"
  by (simp add: markEmailSent_def split: sum.splits)

lemma sqls_markEmailSent: "sqls (snd (markEmailSent w d x y)) = [InsertSent x y]"
  by (simp add: markEmailSent_def split: sum.splits)

lemma count_markEmailSent:
  "count_sent (fst (markEmailSent w d x y)) x' y' =
     count_sent d x' y' +
       (if db_fault w (InsertSent x y) = None \<and> x' = x \<and> y' = y then 1 else 0)"
  by (simp add: markEmailSent_def insert_sent_email_def count_sent_def Let_def
      split: option.splits)

lemma tables_markEmailSent:
  "subscribers (fst (markEmailSent w d x y)) = subscribers d \<and>
   articles (fst (markEmailSent w d x y)) = articles d"
  by (simp add: markEmailSent_def insert_sent_email_def Let_def split: option.splits)

lemma mails_send_one:
  "mails (snd (send_one w y a s d)) =
     (if fst (hasReceivedArticle w d (Subscriber.ID s) y) then [] else [s])"
  using mails_hasReceivedArticle [of w d "Subscriber.ID s" y] mails_sendEmail [of w s a]
    mails_markEmailSent [of w d "Subscriber.ID s" y]
  by (simp add: send_one_def mails_append case_prod_beta)

lemma sqls_send_one:
  "sqls (snd (send_one w y a s d)) =
     CountSent (Subscriber.ID s) y #
       (if \<not> fst (hasReceivedArticle w d (Subscriber.ID s) y) \<and> mail_fault w s a = None
        then [InsertSent (Subscriber.ID s) y] else [])"
  using sqls_hasReceivedArticle [of w d "Subscriber.ID s" y] sqls_sendEmail [of w s a]
    sqls_markEmailSent [of w d "Subscriber.ID s" y] fst_sendEmail [of w s a]
  by (simp add: send_one_def sqls_append case_prod_beta)

lemma count_send_one:
  "count_sent (fst (send_one w y a s d)) x' y' =
     count_sent d x' y' +
       (if \<not> fst (hasReceivedArticle w d (Subscriber.ID s) y) \<and> mail_fault w s a = None \<and>
           db_fault w (InsertSent (Subscriber.ID s) y) = None \<and>
           x' = Subscriber.ID s \<and> y' = y
        then 1 else 0)"
  by (simp add: send_one_def case_prod_beta count_markEmailSent fst_sendEmail)

lemma tables_send_one:
  "subscribers (fst (send_one w y a s d)) = subscribers d \<and>
   articles (fst (send_one w y a s d)) = articles d"
  using tables_markEmailSent [of w d "Subscriber.ID s" y]
  by (simp add: send_one_def case_prod_beta)

lemma send_loop_Cons:
  "send_loop w y a (s # ss) d =
     (fst (send_loop w y a ss (fst (send_one w y a s d))),
      snd (send_one w y a s d) @ snd (send_loop w y a ss (fst (send_one w y a s d))))"
  by (simp add: case_prod_beta)

lemma received_cong:
  "count_sent d' x y = count_sent d x y \<Longrightarrow>
   fst (hasReceivedArticle w d' x y) = fst (hasReceivedArticle w d x y)"
  by (simp add: hasReceivedArticle_def split: option.splits)

lemma tables_send_loop:
  "subscribers (fst (send_loop w y a ss d)) = subscribers d \<and>
   articles (fst (send_loop w y a ss d)) = articles d"
proof (induction ss arbitrary: d)
  case Nil
  show ?case by simp
next
  case (Cons s ss)
  show ?case
    unfolding send_loop_Cons using Cons.IH [of "fst (send_one w y a s d)"] tables_send_one [of w y a s d]
    by simp
qed

lemma checks_send_loop: "checks (sqls (snd (send_loop w y a ss d))) = map Subscriber.ID ss"
proof (induction ss arbitrary: d)
  case Nil
  show ?case by simp
next
  case (Cons s ss)
  show ?case
    unfolding send_loop_Cons
    by (simp add: sqls_append checks_append sqls_send_one Cons.IH)
qed

lemma inserts_send_loop:
  "inserts (sqls (snd (send_loop w y a ss d))) =
     map Subscriber.ID (filter (\<lambda>s. mail_fault w s a = None) (mails (snd (send_loop w y a ss d))))"
proof (induction ss arbitrary: d)
  case Nil
  show ?case by simp
next
  case (Cons s ss)
  show ?case
    unfolding send_loop_Cons
    by (simp add: sqls_append inserts_append mails_append sqls_send_one mails_send_one Cons.IH)
qed

lemma count_send_loop_mono: "count_sent d x y' \<le> count_sent (fst (send_loop w y a ss d)) x y'"
proof (induction ss arbitrary: d)
  case Nil
  show ?case by simp
next
  case (Cons s ss)
  have "count_sent d x y' \<le> count_sent (fst (send_one w y a s d)) x y'"
    by (simp add: count_send_one)
  also have "\<dots> \<le> count_sent (fst (send_loop w y a ss (fst (send_one w y a s d)))) x y'"
    by (rule Cons.IH)
  finally show ?case unfolding send_loop_Cons by simp
qed

text \<open>A pair gains no record when every row with that id fails to be mailed or to be marked.\<close>

lemma count_send_loop_same:
  assumes "\<forall>s\<in>set ss. Subscriber.ID s = x \<longrightarrow>
             mail_fault w s a \<noteq> None \<or> db_fault w (InsertSent x y) \<noteq> None"
  shows "count_sent (fst (send_loop w y a ss d)) x y = count_sent d x y"
  using assms
proof (induction ss arbitrary: d)
  case Nil
  show ?case by simp
next
  case (Cons s ss)
  have "count_sent (fst (send_one w y a s d)) x y = count_sent d x y"
    using Cons.prems by (auto simp add: count_send_one)
  moreover have "count_sent (fst (send_loop w y a ss (fst (send_one w y a s d)))) x y =
      count_sent (fst (send_one w y a s d)) x y"
    using Cons.prems by (intro Cons.IH) simp
  ultimately show ?case unfolding send_loop_Cons by simp
qed

text \<open>With distinct ids, who is mailed is decided by the store the run started from.\<close>

lemma mails_send_loop:
  assumes "distinct (map Subscriber.ID ss)"
  shows "mails (snd (send_loop w y a ss d)) =
           filter (\<lambda>s. \<not> fst (hasReceivedArticle w d (Subscriber.ID s) y)) ss"
  using assms
proof (induction ss arbitrary: d)
  case Nil
  show ?case by simp
next
  case (Cons s ss)
  let ?d1 = "fst (send_one w y a s d)"
  have same: "fst (hasReceivedArticle w ?d1 (Subscriber.ID t) y) =
      fst (hasReceivedArticle w d (Subscriber.ID t) y)" if "t \<in> set ss" for t
  proof -
    have "Subscriber.ID t \<noteq> Subscriber.ID s"
      using Cons.prems that by (auto simp add: image_iff)
    then have "count_sent ?d1 (Subscriber.ID t) y = count_sent d (Subscriber.ID t) y"
      by (simp add: count_send_one)
    then show ?thesis by (rule received_cong)
  qed
  have "mails (snd (send_loop w y a ss ?d1)) =
      filter (\<lambda>t. \<not> fst (hasReceivedArticle w ?d1 (Subscriber.ID t) y)) ss"
    using Cons.prems by (intro Cons.IH) simp
  also have "\<dots> = filter (\<lambda>t. \<not> fst (hasReceivedArticle w d (Subscriber.ID t) y)) ss"
    by (rule filter_cong) (simp_all add: same)
  finally show ?case
    unfolding send_loop_Cons by (simp add: mails_append mails_send_one)
qed

text \<open>With distinct ids, the statements of the loop: one check per subscriber, in order,
  each followed at once by the insert when the subscriber was mailed with success.\<close>

lemma sqls_send_loop:
  assumes "distinct (map Subscriber.ID ss)"
  shows "sqls (snd (send_loop w y a ss d)) =
           concat (map (\<lambda>s. CountSent (Subscriber.ID s) y #
             (if \<not> fst (hasReceivedArticle w d (Subscriber.ID s) y) \<and> mail_fault w s a = None
              then [InsertSent (Subscriber.ID s) y] else [])) ss)"
  using assms
proof (induction ss arbitrary: d)
  case Nil
  show ?case by simp
next
  case (Cons s ss)
  let ?d1 = "fst (send_one w y a s d)"
  let ?f = "\<lambda>d t. CountSent (Subscriber.ID t) y #
      (if \<not> fst (hasReceivedArticle w d (Subscriber.ID t) y) \<and> mail_fault w t a = None
       then [InsertSent (Subscriber.ID t) y] else [])"
  have same: "?f ?d1 t = ?f d t" if "t \<in> set ss" for t
  proof -
    have "Subscriber.ID t \<noteq> Subscriber.ID s"
      using Cons.prems that by (auto simp add: image_iff)
    then have "count_sent ?d1 (Subscriber.ID t) y = count_sent d (Subscriber.ID t) y"
      by (simp add: count_send_one)
    then have "fst (hasReceivedArticle w ?d1 (Subscriber.ID t) y) =
        fst (hasReceivedArticle w d (Subscriber.ID t) y)"
      by (rule received_cong)
    then show ?thesis by simp
  qed
  have "sqls (snd (send_loop w y a ss ?d1)) = concat (map (?f ?d1) ss)"
    using Cons.prems by (intro Cons.IH) simp
  also have "map (?f ?d1) ss = map (?f d) ss"
    by (rule map_cong) (simp_all only: same)
  finally show ?case
    unfolding send_loop_Cons by (simp add: sqls_append sqls_send_one)
qed

text \<open>Without that assumption: a row whose check errors is mailed all the same.\<close>

lemma mails_send_loop_fault:
  assumes "s \<in> set ss" and "db_fault w (CountSent (Subscriber.ID s) y) \<noteq> None"
  shows "s \<in> set (mails (snd (send_loop w y a ss d)))"
  using assms
proof (induction ss arbitrary: d)
  case Nil
  then show ?case by simp
next
  case (Cons t ss)
  show ?case
  proof (cases "t = s")
    case True
    have "\<not> fst (hasReceivedArticle w d (Subscriber.ID s) y)"
      using Cons.prems(2) by (auto simp add: hasReceivedArticle_def)
    then show ?thesis unfolding send_loop_Cons True by (simp add: mails_append mails_send_one)
  next
    case False
    then have "s \<in> set ss" using Cons.prems(1) by simp
    then have "s \<in> set (mails (snd (send_loop w y a ss (fst (send_one w y a t d)))))"
      using Cons.prems(2) by (intro Cons.IH)
    then show ?thesis unfolding send_loop_Cons by (simp add: mails_append)
  qed
qed

lemma count_send_loop_fault:
  assumes "s \<in> set ss" and "db_fault w (CountSent (Subscriber.ID s) y) \<noteq> None"
    and "mail_fault w s a = None" and "db_fault w (InsertSent (Subscriber.ID s) y) = None"
  shows "count_sent d (Subscriber.ID s) y < count_sent (fst (send_loop w y a ss d)) (Subscriber.ID s) y"
  using assms(1)
proof (induction ss arbitrary: d)
  case Nil
  then show ?case by simp
next
  case (Cons t ss)
  let ?d1 = "fst (send_one w y a t d)"
  show ?case
  proof (cases "t = s")
    case True
    have "\<not> fst (hasReceivedArticle w d (Subscriber.ID s) y)"
      using assms(2) by (auto simp add: hasReceivedArticle_def)
    then have "count_sent d (Subscriber.ID s) y < count_sent ?d1 (Subscriber.ID s) y"
      using assms(3,4) True by (simp add: count_send_one)
    also have "\<dots> \<le> count_sent (fst (send_loop w y a ss ?d1)) (Subscriber.ID s) y"
      by (rule count_send_loop_mono)
    finally show ?thesis unfolding send_loop_Cons by simp
  next
    case False
    then have "s \<in> set ss" using Cons.prems by simp
    have "count_sent d (Subscriber.ID s) y \<le> count_sent ?d1 (Subscriber.ID s) y"
      by (simp add: count_send_one)
    also have "\<dots> < count_sent (fst (send_loop w y a ss ?d1)) (Subscriber.ID s) y"
      using \<open>s \<in> set ss\<close> by (rule Cons.IH)
    finally show ?thesis unfolding send_loop_Cons by simp
  qed
qed

text \<open>The whole run, once the two reads at its start have succeeded.\<close>

lemma sendNewsletterForArticle_loop:
  assumes "getArticle w d y = Inr a" and "getSubscribers w d = Inr ss"
  shows "fst (sendNewsletterForArticle w d y) = fst (send_loop w y a ss d) \<and>
         mails (snd (sendNewsletterForArticle w d y)) = mails (snd (send_loop w y a ss d)) \<and>
         sqls (snd (sendNewsletterForArticle w d y)) =
           SelectArticle y # SelectSubscribers # sqls (snd (send_loop w y a ss d))"
  using assms by (simp add: sendNewsletterForArticle_def case_prod_beta)

lemma getArticle_present:
  assumes "articleID \<in> set (map Article.ID (articles d))"
    and "db_fault w (SelectArticle articleID) = None"
  shows "\<exists>a. getArticle w d articleID = Inr a"
proof -
  have "find (\<lambda>a. Article.ID a = articleID) (sort_key Article.ID (articles d)) \<noteq> None"
    using assms(1) by (auto simp add: find_None_iff)
  then show ?thesis using assms(2) by (auto simp add: getArticle_def)
qed

text \<open>The two reads at the start of a run see only the articles and the subscribers.\<close>

lemma getArticle_cong:
  assumes "getArticle w d y = Inr a" and "articles d' = articles d"
    and "db_fault w' (SelectArticle y) = None"
  shows "getArticle w' d' y = Inr a"
  using assms by (auto simp add: getArticle_def split: option.splits)

lemma getSubscribers_cong:
  assumes "getSubscribers w d = Inr ss" and "subscribers d' = subscribers d"
    and "db_fault w' SelectSubscribers = None"
  shows "getSubscribers w' d' = Inr ss"
  using assms by (auto simp add: getSubscribers_def split: option.splits)

lemma send_one_received:
  "fst (hasReceivedArticle w d (Subscriber.ID s) y) \<Longrightarrow> fst (send_one w y a s d) = d"
  by (simp add: send_one_def case_prod_beta)

lemma not_received_iff:
  "(\<not> fst (hasReceivedArticle w d x y)) =
     (count_sent d x y = 0 \<or> db_fault w (CountSent x y) \<noteq> None)"
  by (auto simp add: hasReceivedArticle_def split: option.splits)

section \<open>Dispatching twice\<close>

text \<open>
  C1. Let the store hold a single subscriber and the article with the given id, let no
  statement of the store fail in either run and let the mail send succeed. Then two
  dispatches of the article in a row leave exactly one sent-record for the pair, and the
  second run calls sendEmail for nobody, inserts nothing and leaves the store as the first
  run left it. Starting without a record for the pair, the first run mails the subscriber
  once and inserts the record that the check of the second run finds; a pair that already
  had its one record keeps it.
\<close>

theorem dispatch_twice_single_subscriber:
  assumes "subscribers d = [s]"
    and "articleID \<in> set (map Article.ID (articles d))"
    and "\<forall>q. db_fault w1 q = None"
    and "\<forall>q. db_fault w2 q = None"
    and "\<forall>sub article. mail_fault w1 sub article = None"
    and "count_sent d (Subscriber.ID s) articleID \<le> 1"
  shows "count_sent (fst (sendNewsletterForArticle w2
             (fst (sendNewsletterForArticle w1 d articleID)) articleID))
           (Subscriber.ID s) articleID = 1 \<and>
         mails (snd (sendNewsletterForArticle w2
             (fst (sendNewsletterForArticle w1 d articleID)) articleID)) = [] \<and>
         inserts (sqls (snd (sendNewsletterForArticle w2
             (fst (sendNewsletterForArticle w1 d articleID)) articleID))) = [] \<and>
         fst (sendNewsletterForArticle w2
             (fst (sendNewsletterForArticle w1 d articleID)) articleID) =
           fst (sendNewsletterForArticle w1 d articleID) \<and>
         (count_sent d (Subscriber.ID s) articleID = 0 \<longrightarrow>
            mails (snd (sendNewsletterForArticle w1 d articleID)) = [scan_id_email_name s] \<and>
            inserts (sqls (snd (sendNewsletterForArticle w1 d articleID))) =
              [Subscriber.ID s])"
proof -
  let ?s = "scan_id_email_name s"
  let ?r1 = "sendNewsletterForArticle w1 d articleID"
  let ?d1 = "fst (send_one w1 articleID a ?s d)"
  obtain a where a: "getArticle w1 d articleID = Inr a"
    using getArticle_present [OF assms(2)] assms(3) by blast
  have sid: "Subscriber.ID ?s = Subscriber.ID s"
    by (simp add: scan_id_email_name_def)
  have ss: "getSubscribers w1 d = Inr [?s]"
    using assms(1,3) by (simp add: getSubscribers_def)
  have r1: "fst ?r1 = fst (send_one w1 articleID a ?s d)"
    "mails (snd ?r1) = mails (snd (send_one w1 articleID a ?s d))"
    "sqls (snd ?r1) = SelectArticle articleID # SelectSubscribers #
        sqls (snd (send_one w1 articleID a ?s d))"
    using sendNewsletterForArticle_loop [OF a ss] by (simp_all add: case_prod_beta sqls_append)
  have rec1: "fst (hasReceivedArticle w1 d (Subscriber.ID s) articleID) =
      (0 < count_sent d (Subscriber.ID s) articleID)"
    using assms(3) by (simp add: hasReceivedArticle_def)
  have c1: "count_sent (fst ?r1) (Subscriber.ID s) articleID = 1"
    using assms(3,5,6) by (auto simp add: r1 count_send_one sid rec1)
  have t1: "articles (fst ?r1) = articles d" "subscribers (fst ?r1) = subscribers d"
    using tables_send_one [of w1 articleID a ?s d] by (simp_all add: r1(1))
  have w2: "db_fault w2 (SelectArticle articleID) = None" "db_fault w2 SelectSubscribers = None"
    using assms(4) by simp_all
  have a2: "getArticle w2 (fst ?r1) articleID = Inr a"
    by (rule getArticle_cong [OF a t1(1) w2(1)])
  have ss2: "getSubscribers w2 (fst ?r1) = Inr [?s]"
    by (rule getSubscribers_cong [OF ss t1(2) w2(2)])
  have rec2: "fst (hasReceivedArticle w2 (fst ?r1) (Subscriber.ID ?s) articleID)"
    using assms(4) c1 by (simp add: hasReceivedArticle_def sid)
  let ?r2 = "sendNewsletterForArticle w2 (fst ?r1) articleID"
  have r2: "fst ?r2 = fst (send_one w2 articleID a ?s (fst ?r1))"
    "mails (snd ?r2) = mails (snd (send_one w2 articleID a ?s (fst ?r1)))"
    "sqls (snd ?r2) = SelectArticle articleID # SelectSubscribers #
        sqls (snd (send_one w2 articleID a ?s (fst ?r1)))"
    using sendNewsletterForArticle_loop [OF a2 ss2] by (simp_all add: case_prod_beta sqls_append)
  have "fst ?r2 = fst ?r1"
    using rec2 by (simp add: r2(1) send_one_received)
  moreover have "mails (snd ?r2) = []"
    using rec2 by (simp add: r2(2) mails_send_one)
  moreover have "inserts (sqls (snd ?r2)) = []"
    using rec2 by (simp add: r2(3) sqls_send_one)
  moreover have "count_sent d (Subscriber.ID s) articleID = 0 \<longrightarrow>
      mails (snd ?r1) = [?s] \<and> inserts (sqls (snd ?r1)) = [Subscriber.ID s]"
    using assms(5) by (simp add: r1 mails_send_one sqls_send_one sid rec1)
  ultimately show ?thesis using c1 by simp
qed

theorem dispatch_twice_single_subscriber_witness:
  "subscribers ann_hi_db = [ann_row] \<and>
   1 \<in> set (map Article.ID (articles ann_hi_db)) \<and>
   (\<forall>q. db_fault quiet q = None) \<and> (\<forall>sub article. mail_fault quiet sub article = None) \<and>
   count_sent ann_hi_db (Subscriber.ID ann_row) 1 = 0 \<and>
   count_sent (fst (sendNewsletterForArticle quiet
       (fst (sendNewsletterForArticle quiet ann_hi_db 1)) 1)) (Subscriber.ID ann_row) 1 = 1 \<and>
   mails (snd (sendNewsletterForArticle quiet
       (fst (sendNewsletterForArticle quiet ann_hi_db 1)) 1)) = [] \<and>
   mails (snd (sendNewsletterForArticle quiet ann_hi_db 1)) = [ann] \<and>
   inserts (sqls (snd (sendNewsletterForArticle quiet ann_hi_db 1))) = [1]"
proof -
  have h1: "subscribers ann_hi_db = [ann_row]"
    by (simp add: ann_hi_db_def ann_db_def createTables_def)
  have h2: "1 \<in> set (map Article.ID (articles ann_hi_db))"
    by (simp add: ann_hi_db_def hi_def)
  have h3: "\<forall>q. db_fault quiet q = None"
    by (simp add: quiet_def)
  have h4: "\<forall>sub article. mail_fault quiet sub article = None"
    by (simp add: quiet_def)
  have h5: "count_sent ann_hi_db (Subscriber.ID ann_row) 1 = 0"
    by (simp add: count_sent_def ann_hi_db_def ann_db_def createTables_def)
  have h6: "count_sent ann_hi_db (Subscriber.ID ann_row) 1 \<le> 1"
    by (simp add: h5)
  have s: "scan_id_email_name ann_row = ann" "Subscriber.ID ann_row = 1"
    by (simp_all add: scan_id_email_name_def ann_row_def ann_def)
  show ?thesis
    using dispatch_twice_single_subscriber [OF h1 h2 h3 h3 h4 h6] h1 h2 h3 h4 h5
    by (auto simp add: s)
qed

section \<open>A failed send\<close>

text \<open>
  C2. Once the article and the subscribers have been read, and the subscribers' ids being
  distinct (id is the primary key: \<open>getSubscribers_run_distinct\<close> below), the run
  issues one check per subscriber, in the order of the query, each followed at once by the
  insert when that subscriber was mailed with success. It calls sendEmail, once, for exactly
  those whose check on the store found no record, whatever happened to the others, and it
  inserts a record exactly for the calls that succeeded. So a subscriber whose send failed
  gets no insert, keeps the number of records it had, and does not stop the subscribers
  after it from being checked and mailed.
\<close>

theorem dispatch_continues_after_send_failure:
  assumes "getArticle w d articleID = Inr article"
    and "getSubscribers w d = Inr subs"
    and "distinct (map Subscriber.ID subs)"
  shows "sqls (snd (sendNewsletterForArticle w d articleID)) =
           SelectArticle articleID # SelectSubscribers #
           concat (map (\<lambda>s. CountSent (Subscriber.ID s) articleID #
             (if \<not> fst (hasReceivedArticle w d (Subscriber.ID s) articleID) \<and>
                 mail_fault w s article = None
              then [InsertSent (Subscriber.ID s) articleID] else [])) subs) \<and>
         checks (sqls (snd (sendNewsletterForArticle w d articleID))) =
           map Subscriber.ID subs \<and>
         mails (snd (sendNewsletterForArticle w d articleID)) =
           filter (\<lambda>s. \<not> fst (hasReceivedArticle w d (Subscriber.ID s) articleID)) subs \<and>
         inserts (sqls (snd (sendNewsletterForArticle w d articleID))) =
           map Subscriber.ID (filter (\<lambda>s. mail_fault w s article = None)
             (mails (snd (sendNewsletterForArticle w d articleID)))) \<and>
         (\<forall>s\<in>set subs. mail_fault w s article \<noteq> None \<longrightarrow>
            Subscriber.ID s \<notin> set (inserts (sqls (snd (sendNewsletterForArticle w d articleID)))) \<and>
            count_sent (fst (sendNewsletterForArticle w d articleID)) (Subscriber.ID s) articleID =
              count_sent d (Subscriber.ID s) articleID)"
proof -
  let ?l = "send_loop w articleID article subs d"
  note loop = sendNewsletterForArticle_loop [OF assms(1,2)]
  have inj: "inj_on Subscriber.ID (set subs)"
    using assms(3) by (simp add: distinct_map)
  have q: "sqls (snd (sendNewsletterForArticle w d articleID)) =
      SelectArticle articleID # SelectSubscribers #
      concat (map (\<lambda>s. CountSent (Subscriber.ID s) articleID #
        (if \<not> fst (hasReceivedArticle w d (Subscriber.ID s) articleID) \<and>
            mail_fault w s article = None
         then [InsertSent (Subscriber.ID s) articleID] else [])) subs)"
    by (simp only: loop sqls_send_loop [OF assms(3)])
  have a: "checks (sqls (snd (sendNewsletterForArticle w d articleID))) = map Subscriber.ID subs"
    by (simp add: loop checks_send_loop)
  have b: "mails (snd (sendNewsletterForArticle w d articleID)) =
      filter (\<lambda>s. \<not> fst (hasReceivedArticle w d (Subscriber.ID s) articleID)) subs"
    by (simp add: loop mails_send_loop [OF assms(3)])
  have c: "inserts (sqls (snd (sendNewsletterForArticle w d articleID))) =
      map Subscriber.ID (filter (\<lambda>s. mail_fault w s article = None)
        (mails (snd (sendNewsletterForArticle w d articleID))))"
    by (simp add: loop inserts_send_loop)
  have d: "Subscriber.ID s \<notin> set (inserts (sqls (snd (sendNewsletterForArticle w d articleID)))) \<and>
      count_sent (fst (sendNewsletterForArticle w d articleID)) (Subscriber.ID s) articleID =
        count_sent d (Subscriber.ID s) articleID"
    if s: "s \<in> set subs" and f: "mail_fault w s article \<noteq> None" for s
  proof
    have only: "t = s" if "t \<in> set subs" and "Subscriber.ID t = Subscriber.ID s" for t
      using inj s that by (auto dest: inj_onD)
    show "Subscriber.ID s \<notin> set (inserts (sqls (snd (sendNewsletterForArticle w d articleID))))"
    proof
      assume "Subscriber.ID s \<in> set (inserts (sqls (snd (sendNewsletterForArticle w d articleID))))"
      then obtain t where t: "t \<in> set subs" "mail_fault w t article = None"
        "Subscriber.ID t = Subscriber.ID s"
        unfolding c b by auto
      from only [OF t(1) t(3)] t(2) f show False by simp
    qed
    have "\<forall>t\<in>set subs. Subscriber.ID t = Subscriber.ID s \<longrightarrow>
        mail_fault w t article \<noteq> None \<or>
        db_fault w (InsertSent (Subscriber.ID s) articleID) \<noteq> None"
      using only f by auto
    then show "count_sent (fst (sendNewsletterForArticle w d articleID)) (Subscriber.ID s)
        articleID = count_sent d (Subscriber.ID s) articleID"
      by (simp add: loop count_send_loop_same)
  qed
  have e: "\<forall>s\<in>set subs. mail_fault w s article \<noteq> None \<longrightarrow>
      Subscriber.ID s \<notin> set (inserts (sqls (snd (sendNewsletterForArticle w d articleID)))) \<and>
      count_sent (fst (sendNewsletterForArticle w d articleID)) (Subscriber.ID s) articleID =
        count_sent d (Subscriber.ID s) articleID"
    using d by blast
  show ?thesis by (intro conjI) (rule q, rule a, rule b, rule c, rule e)
qed

lemma getArticle_hi:
  "db_fault w (SelectArticle 1) = None \<Longrightarrow> articles d = [hi] \<Longrightarrow> getArticle w d 1 = Inr hi"
  by (simp add: getArticle_def hi_def)

lemma getSubscribers_ann_bob:
  "db_fault w SelectSubscribers = None \<Longrightarrow> subscribers d = [ann_row, bob_row] \<Longrightarrow>
   getSubscribers w d = Inr [ann, bob]"
  by (simp add: getSubscribers_def scan_id_email_name_def ann_row_def bob_row_def ann_def bob_def)

lemma getSubscribers_ann:
  "db_fault w SelectSubscribers = None \<Longrightarrow> subscribers d = [ann_row] \<Longrightarrow>
   getSubscribers w d = Inr [ann]"
  by (simp add: getSubscribers_def scan_id_email_name_def ann_row_def ann_def)

theorem dispatch_continues_after_send_failure_witness:
  "getArticle ann_bounces ann_bob_hi_db 1 = Inr hi \<and>
   getSubscribers ann_bounces ann_bob_hi_db = Inr [ann, bob] \<and>
   distinct (map Subscriber.ID [ann, bob]) \<and>
   mail_fault ann_bounces ann hi \<noteq> None \<and>
   sqls (snd (sendNewsletterForArticle ann_bounces ann_bob_hi_db 1)) =
     [SelectArticle 1, SelectSubscribers, CountSent 1 1, CountSent 2 1, InsertSent 2 1] \<and>
   checks (sqls (snd (sendNewsletterForArticle ann_bounces ann_bob_hi_db 1))) = [1, 2] \<and>
   mails (snd (sendNewsletterForArticle ann_bounces ann_bob_hi_db 1)) = [ann, bob] \<and>
   inserts (sqls (snd (sendNewsletterForArticle ann_bounces ann_bob_hi_db 1))) = [2] \<and>
   count_sent (fst (sendNewsletterForArticle ann_bounces ann_bob_hi_db 1)) 1 1 = 0"
proof -
  have h1: "getArticle ann_bounces ann_bob_hi_db 1 = Inr hi"
    by (rule getArticle_hi) (simp_all add: ann_bounces_def quiet_def ann_bob_hi_db_def ann_hi_db_def)
  have h2: "getSubscribers ann_bounces ann_bob_hi_db = Inr [ann, bob]"
    by (rule getSubscribers_ann_bob) (simp_all add: ann_bounces_def quiet_def ann_bob_hi_db_def)
  have h3: "distinct (map Subscriber.ID [ann, bob])"
    by (simp add: ann_def bob_def)
  have f: "mail_fault ann_bounces ann hi \<noteq> None" "mail_fault ann_bounces bob hi = None"
    by (simp_all add: ann_bounces_def ann_def bob_def)
  have r: "\<not> fst (hasReceivedArticle ann_bounces ann_bob_hi_db (Subscriber.ID ann) 1)"
    "\<not> fst (hasReceivedArticle ann_bounces ann_bob_hi_db (Subscriber.ID bob) 1)"
    by (simp_all add: hasReceivedArticle_def count_sent_def ann_bounces_def quiet_def
        ann_bob_hi_db_def ann_hi_db_def ann_db_def createTables_def)
  have c: "count_sent ann_bob_hi_db 1 1 = 0"
    by (simp add: count_sent_def ann_bob_hi_db_def ann_hi_db_def ann_db_def createTables_def)
  have i: "Subscriber.ID ann = 1" "Subscriber.ID bob = 2"
    by (simp_all add: ann_def bob_def)
  show ?thesis
    using dispatch_continues_after_send_failure [OF h1 h2 h3] h1 h2 h3 f r c
    by (auto simp add: i)
qed

section \<open>A failing existence check\<close>

text \<open>
  C9. When the count query for a subscriber errors, hasReceivedArticle logs and returns
  false on any store; the run then calls sendEmail for that subscriber, and when the send
  and the insert succeed the pair ends with more sent-records than it had, so a pair
  that already had one ends with two.
\<close>

theorem check_fails_open:
  assumes "getArticle w d articleID = Inr article"
    and "getSubscribers w d = Inr subs"
    and "s \<in> set subs"
    and "db_fault w (CountSent (Subscriber.ID s) articleID) = Some e"
  shows "hasReceivedArticle w d0 (Subscriber.ID s) articleID =
           (False, [Sql (CountSent (Subscriber.ID s) articleID),
                    Log (''Error checking sent email: '' @ e)]) \<and>
         s \<in> set (mails (snd (sendNewsletterForArticle w d articleID))) \<and>
         (mail_fault w s article = None \<and>
          db_fault w (InsertSent (Subscriber.ID s) articleID) = None \<longrightarrow>
            count_sent d (Subscriber.ID s) articleID <
              count_sent (fst (sendNewsletterForArticle w d articleID))
                (Subscriber.ID s) articleID)"
proof -
  note loop = sendNewsletterForArticle_loop [OF assms(1,2)]
  have f: "db_fault w (CountSent (Subscriber.ID s) articleID) \<noteq> None"
    using assms(4) by simp
  have a: "hasReceivedArticle w d0 (Subscriber.ID s) articleID =
      (False, [Sql (CountSent (Subscriber.ID s) articleID),
               Log (''Error checking sent email: '' @ e)])"
    using assms(4) by (simp add: hasReceivedArticle_def)
  have b: "s \<in> set (mails (snd (sendNewsletterForArticle w d articleID)))"
    using mails_send_loop_fault [OF assms(3) f] by (simp add: loop)
  have c: "count_sent d (Subscriber.ID s) articleID <
      count_sent (fst (sendNewsletterForArticle w d articleID)) (Subscriber.ID s) articleID"
    if "mail_fault w s article = None"
      and "db_fault w (InsertSent (Subscriber.ID s) articleID) = None"
    using count_send_loop_fault [OF assms(3) f that] by (simp add: loop)
  show ?thesis using a b c by simp
qed

theorem check_fails_open_witness:
  "getArticle count_fails ann_hi_sent_db 1 = Inr hi \<and>
   getSubscribers count_fails ann_hi_sent_db = Inr [ann] \<and>
   db_fault count_fails (CountSent (Subscriber.ID ann) 1) = Some ''database is locked'' \<and>
   count_sent ann_hi_sent_db (Subscriber.ID ann) 1 = 1 \<and>
   ann \<in> set (mails (snd (sendNewsletterForArticle count_fails ann_hi_sent_db 1))) \<and>
   1 < count_sent (fst (sendNewsletterForArticle count_fails ann_hi_sent_db 1))
         (Subscriber.ID ann) 1"
proof -
  have h1: "getArticle count_fails ann_hi_sent_db 1 = Inr hi"
    by (rule getArticle_hi)
      (simp_all add: count_fails_def quiet_def ann_hi_sent_db_def ann_hi_db_def)
  have h2: "getSubscribers count_fails ann_hi_sent_db = Inr [ann]"
    by (rule getSubscribers_ann)
      (simp_all add: count_fails_def quiet_def ann_hi_sent_db_def ann_hi_db_def ann_db_def
        createTables_def)
  have h3: "ann \<in> set [ann]"
    by simp
  have h4: "db_fault count_fails (CountSent (Subscriber.ID ann) 1) = Some ''database is locked''"
    by (simp add: count_fails_def)
  have m: "mail_fault count_fails ann hi = None"
    "db_fault count_fails (InsertSent (Subscriber.ID ann) 1) = None"
    by (simp_all add: count_fails_def quiet_def)
  have c: "count_sent ann_hi_sent_db (Subscriber.ID ann) 1 = 1"
    by (simp add: count_sent_def ann_hi_sent_db_def ann_def)
  show ?thesis
    using check_fails_open [OF h1 h2 h3 h4] h1 h2 h4 m c by simp
qed

section \<open>A failing insert of the sent-record\<close>

text \<open>
  C10. When the insert of the sent-record errors after a successful send, markEmailSent
  logs and returns the store as it was; the run still checks every subscriber, the pair is
  left without a record, and every later dispatch of the article whose two reads succeed
  calls sendEmail for that subscriber again.
\<close>

theorem mark_failure_swallowed:
  assumes "getArticle w d articleID = Inr article"
    and "getSubscribers w d = Inr subs"
    and "distinct (map Subscriber.ID subs)"
    and "s \<in> set subs"
    and "count_sent d (Subscriber.ID s) articleID = 0"
    and "mail_fault w s article = None"
    and "db_fault w (InsertSent (Subscriber.ID s) articleID) = Some e"
  shows "markEmailSent w d0 (Subscriber.ID s) articleID =
           (d0, [Sql (InsertSent (Subscriber.ID s) articleID),
                 Log (''Error marking email as sent: '' @ e)]) \<and>
         s \<in> set (mails (snd (sendNewsletterForArticle w d articleID))) \<and>
         checks (sqls (snd (sendNewsletterForArticle w d articleID))) =
           map Subscriber.ID subs \<and>
         count_sent (fst (sendNewsletterForArticle w d articleID))
           (Subscriber.ID s) articleID = 0 \<and>
         (\<forall>w2. db_fault w2 (SelectArticle articleID) = None \<and>
               db_fault w2 SelectSubscribers = None \<longrightarrow>
            s \<in> set (mails (snd (sendNewsletterForArticle w2
                  (fst (sendNewsletterForArticle w d articleID)) articleID))))"
proof -
  let ?d1 = "fst (sendNewsletterForArticle w d articleID)"
  note loop = sendNewsletterForArticle_loop [OF assms(1,2)]
  have a: "markEmailSent w d0 (Subscriber.ID s) articleID =
      (d0, [Sql (InsertSent (Subscriber.ID s) articleID),
            Log (''Error marking email as sent: '' @ e)])"
    using assms(7) by (simp add: markEmailSent_def insert_sent_email_def)
  have b: "s \<in> set (mails (snd (sendNewsletterForArticle w d articleID)))"
    using assms(4,5) by (simp add: loop mails_send_loop [OF assms(3)] not_received_iff)
  have c: "checks (sqls (snd (sendNewsletterForArticle w d articleID))) = map Subscriber.ID subs"
    by (simp add: loop checks_send_loop)
  have "count_sent ?d1 (Subscriber.ID s) articleID = count_sent d (Subscriber.ID s) articleID"
    using assms(7) by (simp add: loop count_send_loop_same)
  then have z: "count_sent ?d1 (Subscriber.ID s) articleID = 0"
    using assms(5) by simp
  have t: "articles ?d1 = articles d" "subscribers ?d1 = subscribers d"
    using tables_send_loop [of w articleID article subs d] by (simp_all add: loop)
  have again: "s \<in> set (mails (snd (sendNewsletterForArticle w2 ?d1 articleID)))"
    if w2: "db_fault w2 (SelectArticle articleID) = None" "db_fault w2 SelectSubscribers = None"
    for w2
  proof -
    have a2: "getArticle w2 ?d1 articleID = Inr article"
      by (rule getArticle_cong [OF assms(1) t(1) w2(1)])
    have s2: "getSubscribers w2 ?d1 = Inr subs"
      by (rule getSubscribers_cong [OF assms(2) t(2) w2(2)])
    have "mails (snd (sendNewsletterForArticle w2 ?d1 articleID)) =
        filter (\<lambda>s. \<not> fst (hasReceivedArticle w2 ?d1 (Subscriber.ID s) articleID)) subs"
      using sendNewsletterForArticle_loop [OF a2 s2] mails_send_loop [OF assms(3)] by simp
    then show ?thesis
      using assms(4) z by (simp add: not_received_iff)
  qed
  show ?thesis
    by (intro conjI allI impI) (rule a, rule b, rule c, rule z, rule again, simp_all)
qed

theorem mark_failure_swallowed_witness:
  "getArticle mark_fails ann_hi_db 1 = Inr hi \<and>
   getSubscribers mark_fails ann_hi_db = Inr [ann] \<and>
   count_sent ann_hi_db (Subscriber.ID ann) 1 = 0 \<and>
   mail_fault mark_fails ann hi = None \<and>
   db_fault mark_fails (InsertSent (Subscriber.ID ann) 1) = Some ''database is locked'' \<and>
   ann \<in> set (mails (snd (sendNewsletterForArticle mark_fails ann_hi_db 1))) \<and>
   count_sent (fst (sendNewsletterForArticle mark_fails ann_hi_db 1)) (Subscriber.ID ann) 1 = 0 \<and>
   ann \<in> set (mails (snd (sendNewsletterForArticle quiet
       (fst (sendNewsletterForArticle mark_fails ann_hi_db 1)) 1)))"
proof -
  have h1: "getArticle mark_fails ann_hi_db 1 = Inr hi"
    by (rule getArticle_hi) (simp_all add: mark_fails_def quiet_def ann_hi_db_def)
  have h2: "getSubscribers mark_fails ann_hi_db = Inr [ann]"
    by (rule getSubscribers_ann)
      (simp_all add: mark_fails_def quiet_def ann_hi_db_def ann_db_def createTables_def)
  have h3: "distinct (map Subscriber.ID [ann])"
    by simp
  have h4: "ann \<in> set [ann]"
    by simp
  have h5: "count_sent ann_hi_db (Subscriber.ID ann) 1 = 0"
    by (simp add: count_sent_def ann_hi_db_def ann_db_def createTables_def)
  have h6: "mail_fault mark_fails ann hi = None"
    by (simp add: mark_fails_def quiet_def)
  have h7: "db_fault mark_fails (InsertSent (Subscriber.ID ann) 1) = Some ''database is locked''"
    by (simp add: mark_fails_def)
  have q: "db_fault quiet (SelectArticle 1) = None \<and> db_fault quiet SelectSubscribers = None"
    by (simp add: quiet_def)
  show ?thesis
    using mark_failure_swallowed [OF h1 h2 h3 h4 h5 h6 h7] h1 h2 h5 h6 h7 q by simp
qed

section \<open>The order of the subscriber query\<close>

lemma fold_max_ge: "fold max ids (seq :: int) \<ge> seq \<and> (\<forall>x\<in>set ids. x \<le> fold max ids seq)"
proof (induction ids arbitrary: seq)
  case Nil
  show ?case by simp
next
  case (Cons i ids)
  have "max i seq \<le> fold max ids (max i seq)"
    and "\<forall>x\<in>set ids. x \<le> fold max ids (max i seq)"
    using Cons.IH [of "max i seq"] by simp_all
  then show ?case by auto
qed

lemma next_rowid_fresh: "x \<in> set ids \<Longrightarrow> x < next_rowid seq ids"
  using fold_max_ge [of seq ids] by (auto simp add: next_rowid_def)

lemma ids_ascending_createTables: "ids_ascending createTables"
  by (simp add: ids_ascending_def createTables_def)

lemma ids_ascending_insert_subscriber:
  assumes "ids_ascending d" and "insert_subscriber w d email name = Inr d'"
  shows "ids_ascending d'"
  using assms next_rowid_fresh [of _ "map Subscriber.ID (subscribers d)" "subscribers_seq d"]
  by (auto simp add: insert_subscriber_def ids_ascending_def sorted_wrt_append Let_def
      split: option.splits if_splits)

lemma subscribers_insert_article:
  "insert_article w d title content = Inr (d', i) \<Longrightarrow> subscribers d' = subscribers d"
  by (auto simp add: insert_article_def Let_def split: option.splits)

lemma subscribers_sendNewsletterForArticle:
  "subscribers (fst (sendNewsletterForArticle w d y)) = subscribers d"
  using tables_send_loop
  by (simp add: sendNewsletterForArticle_def case_prod_beta split: sum.splits)

lemma ids_ascending_step: "ids_ascending d \<Longrightarrow> ids_ascending (step j d wa)"
proof (cases wa)
  case (Pair w a)
  assume asc: "ids_ascending d"
  show ?thesis
  proof (cases a)
    case (Subscribe r)
    then show ?thesis
      using asc ids_ascending_insert_subscriber [OF asc] Pair
      by (auto simp add: handleSubscribe_def split: sum.splits)
  next
    case (Publish r)
    then show ?thesis
      using asc Pair subscribers_insert_article
      by (auto simp add: handlePublish_def ids_ascending_def split: sum.splits)
  next
    case (SendNewsletter r)
    then show ?thesis
      using asc Pair by (auto simp add: handleSendNewsletter_def split: sum.splits)
  next
    case (Stats r)
    then show ?thesis
      using asc Pair by (auto simp add: handleGetAllData_def split: sum.splits)
  next
    case (Dispatch y)
    then show ?thesis
      using asc Pair
      by (simp add: ids_ascending_def subscribers_sendNewsletterForArticle)
  qed
qed

lemma ids_ascending_foldl: "ids_ascending d \<Longrightarrow> ids_ascending (foldl (step j) d acts)"
  by (induction acts arbitrary: d) (simp_all add: ids_ascending_step)

lemma ids_ascending_run: "ids_ascending (run j acts)"
  by (simp add: run_def ids_ascending_foldl ids_ascending_createTables)

lemma sort_key_ascending:
  "ids_ascending d \<Longrightarrow> sort_key Subscriber.ID (subscribers d) = subscribers d"
  by (simp add: ids_ascending_def sort_key_id_if_sorted strict_sorted_imp_sorted)

text \<open>
  C8. In every store that a history of requests and dispatch runs builds from the empty
  tables, the subscriber query of the dispatch, when it succeeds, returns the rows in the
  order in which they were inserted (with the three columns it reads); and a subscriber
  inserted next is returned after all of them.
\<close>

theorem getSubscribers_insertion_order:
  assumes "db_fault w SelectSubscribers = None"
  shows "getSubscribers w (run j acts) =
           Inr (map scan_id_email_name (subscribers (run j acts))) \<and>
         (\<forall>w1 email name d'.
            insert_subscriber w1 (run j acts) email name = Inr d' \<longrightarrow>
              (\<exists>i. getSubscribers w d' =
                 Inr (map scan_id_email_name (subscribers (run j acts)) @
                   [\<lparr>Subscriber.ID = i, Email = email, Name = name, SubscribedAt = ''''\<rparr>])))"
proof (intro conjI allI impI)
  show "getSubscribers w (run j acts) = Inr (map scan_id_email_name (subscribers (run j acts)))"
    using assms by (simp add: getSubscribers_def sort_key_ascending [OF ids_ascending_run])
next
  fix w1 email name d'
  assume ins: "insert_subscriber w1 (run j acts) email name = Inr d'"
  have asc: "ids_ascending d'"
    by (rule ids_ascending_insert_subscriber [OF ids_ascending_run ins])
  obtain i t where new: "subscribers d' = subscribers (run j acts) @
      [\<lparr>Subscriber.ID = i, Email = email, Name = name, SubscribedAt = t\<rparr>]"
    using ins by (auto simp add: insert_subscriber_def Let_def split: option.splits if_splits)
  have "getSubscribers w d' = Inr (map scan_id_email_name (subscribers d'))"
    using assms by (simp add: getSubscribers_def sort_key_ascending [OF asc])
  then have "getSubscribers w d' = Inr (map scan_id_email_name (subscribers (run j acts)) @
      [\<lparr>Subscriber.ID = i, Email = email, Name = name, SubscribedAt = ''''\<rparr>])"
    by (simp add: new scan_id_email_name_def)
  then show "\<exists>i. getSubscribers w d' =
      Inr (map scan_id_email_name (subscribers (run j acts)) @
        [\<lparr>Subscriber.ID = i, Email = email, Name = name, SubscribedAt = ''''\<rparr>])"
    by blast
qed

theorem getSubscribers_insertion_order_witness:
  "db_fault quiet SelectSubscribers = None \<and>
   run json_ex [(quiet, Subscribe subscribe_ann)] = ann_db \<and>
   getSubscribers quiet (run json_ex [(quiet, Subscribe subscribe_ann)]) = Inr [ann] \<and>
   insert_subscriber quiet (run json_ex [(quiet, Subscribe subscribe_ann)]) ''b@x.com'' ''Bob'' =
     Inr (ann_db\<lparr>subscribers := [ann_row,
            bob_row\<lparr>SubscribedAt := ''2024-01-01 00:00:00''\<rparr>], subscribers_seq := 2\<rparr>) \<and>
   (\<exists>i. getSubscribers quiet
      (ann_db\<lparr>subscribers := [ann_row,
            bob_row\<lparr>SubscribedAt := ''2024-01-01 00:00:00''\<rparr>], subscribers_seq := 2\<rparr>) =
      Inr ([ann] @ [\<lparr>Subscriber.ID = i, Email = ''b@x.com'', Name = ''Bob'',
                      SubscribedAt = ''''\<rparr>]))"
proof -
  let ?acts = "[(quiet, Subscribe subscribe_ann)]"
  let ?d2 = "ann_db\<lparr>subscribers := [ann_row,
      bob_row\<lparr>SubscribedAt := ''2024-01-01 00:00:00''\<rparr>], subscribers_seq := 2\<rparr>"
  have h: "db_fault quiet SelectSubscribers = None"
    by (simp add: quiet_def)
  have r: "run json_ex ?acts = ann_db"
    by (simp add: run_def first_ann)
  have i: "insert_subscriber quiet ann_db ''b@x.com'' ''Bob'' = Inr ?d2"
    by (simp add: insert_subscriber_def quiet_def ann_db_def ann_row_def bob_row_def
        createTables_def next_rowid_def)
  have s: "map scan_id_email_name (subscribers ann_db) = [ann]"
    by (simp add: ann_db_def createTables_def scan_id_email_name_def ann_row_def ann_def)
  show ?thesis
    using getSubscribers_insertion_order [OF h, of json_ex ?acts] h i
    by (simp add: r s)
qed

lemma getSubscribers_run_distinct:
  assumes "getSubscribers w (run j acts) = Inr subs"
  shows "distinct (map Subscriber.ID subs)"
proof -
  have "sorted_wrt (<) (map Subscriber.ID (subscribers (run j acts)))"
    using ids_ascending_run [of j acts] by (simp add: ids_ascending_def)
  then have "distinct (map Subscriber.ID (subscribers (run j acts)))"
    by (simp add: strict_sorted_iff)
  moreover have "map Subscriber.ID subs = map Subscriber.ID (subscribers (run j acts))"
    using assms sort_key_ascending [OF ids_ascending_run, of j acts]
    by (auto simp add: getSubscribers_def scan_id_email_name_def split: option.splits)
  ultimately show ?thesis by simp
qed

end
